theory Spec2Isabelle
  imports Main "HOL-Library.Word"
begin

unbundle bit_operations_syntax

section \<open>Bytes and machine words\<close>

type_synonym byte = "8 word"
type_synonym bytes = "byte list"
type_synonym u32 = "32 word"
type_synonym u64 = "64 word"

text \<open>\<open>binary.BigEndian.PutUint64\<close>: the eight bytes of a 64-bit value, most significant first.\<close>

definition be64 :: "u64 \<Rightarrow> bytes" where
  "be64 w = [ucast (drop_bit 56 w), ucast (drop_bit 48 w), ucast (drop_bit 40 w),
             ucast (drop_bit 32 w), ucast (drop_bit 24 w), ucast (drop_bit 16 w),
             ucast (drop_bit 8 w), ucast w]"

definition be_bytes32 :: "u32 \<Rightarrow> bytes" where
  "be_bytes32 w = [ucast (drop_bit 24 w), ucast (drop_bit 16 w), ucast (drop_bit 8 w), ucast w]"

section \<open>SHA-256 and HMAC-SHA256 (crypto/sha256, crypto/hmac)\<close>

definition rotr :: "nat \<Rightarrow> u32 \<Rightarrow> u32" where
  "rotr n w = (drop_bit n w) OR (push_bit (32 - n) w)"

definition Ch :: "u32 \<Rightarrow> u32 \<Rightarrow> u32 \<Rightarrow> u32" where
  "Ch x y z = (x AND y) XOR (NOT x AND z)"

definition Maj :: "u32 \<Rightarrow> u32 \<Rightarrow> u32 \<Rightarrow> u32" where
  "Maj x y z = (x AND y) XOR (x AND z) XOR (y AND z)"

definition bsig0 :: "u32 \<Rightarrow> u32" where
  "bsig0 x = rotr 2 x XOR rotr 13 x XOR rotr 22 x"

definition bsig1 :: "u32 \<Rightarrow> u32" where
  "bsig1 x = rotr 6 x XOR rotr 11 x XOR rotr 25 x"

definition ssig0 :: "u32 \<Rightarrow> u32" where
  "ssig0 x = rotr 7 x XOR rotr 18 x XOR drop_bit 3 x"

definition ssig1 :: "u32 \<Rightarrow> u32" where
  "ssig1 x = rotr 17 x XOR rotr 19 x XOR drop_bit 10 x"

definition K256 :: "u32 list" where
  "K256 = [
  1116352408, 1899447441, 3049323471, 3921009573, 961987163, 1508970993, 2453635748, 2870763221,
  3624381080, 310598401, 607225278, 1426881987, 1925078388, 2162078206, 2614888103, 3248222580,
  3835390401, 4022224774, 264347078, 604807628, 770255983, 1249150122, 1555081692, 1996064986,
  2554220882, 2821834349, 2952996808, 3210313671, 3336571891, 3584528711, 113926993, 338241895,
  666307205, 773529912, 1294757372, 1396182291, 1695183700, 1986661051, 2177026350, 2456956037,
  2730485921, 2820302411, 3259730800, 3345764771, 3516065817, 3600352804, 4094571909, 275423344,
  430227734, 506948616, 659060556, 883997877, 958139571, 1322822218, 1537002063, 1747873779,
  1955562222, 2024104815, 2227730452, 2361852424, 2428436474, 2756734187, 3204031479, 3329325298]"

definition H256 :: "u32 list" where
  "H256 = [1779033703, 3144134277, 1013904242, 2773480762,
           1359893119, 2600822924, 528734635, 1541459225]"

fun be32 :: "bytes \<Rightarrow> u32 list" where
  "be32 (a # b # c # d # r) =
     (push_bit 24 (ucast a) OR push_bit 16 (ucast b) OR push_bit 8 (ucast c) OR ucast d) # be32 r"
| "be32 _ = []"

text \<open>The message schedule, kept newest word first while it is extended.\<close>

fun sched :: "nat \<Rightarrow> u32 list \<Rightarrow> u32 list" where
  "sched 0 ws = ws"
| "sched (Suc n) ws =
     sched n ((ssig1 (ws ! 1) + ws ! 6 + ssig0 (ws ! 14) + ws ! 15) # ws)"

fun rounds :: "u32 list \<Rightarrow> u32 list \<Rightarrow> u32 list \<Rightarrow> u32 list" where
  "rounds (k # ks) (w # ws) [a, b, c, d, e, f, g, h] =
     (let t1 = h + bsig1 e + Ch e f g + k + w;
          t2 = bsig0 a + Maj a b c
      in rounds ks ws [t1 + t2, a, b, c, d + t1, e, f, g])"
| "rounds _ _ st = st"

definition compress :: "u32 list \<Rightarrow> bytes \<Rightarrow> u32 list" where
  "compress st blk = map2 (+) st (rounds K256 (rev (sched 48 (rev (be32 blk)))) st)"

definition pad :: "bytes \<Rightarrow> bytes" where
  "pad m = m @ [0x80] @ replicate ((119 - length m mod 64) mod 64) 0
             @ be64 (word_of_nat (8 * length m))"

fun blocks :: "nat \<Rightarrow> u32 list \<Rightarrow> bytes \<Rightarrow> u32 list" where
  "blocks 0 st m = st"
| "blocks (Suc n) st m = blocks n (compress st (take 64 m)) (drop 64 m)"

definition sha256 :: "bytes \<Rightarrow> bytes" where
  "sha256 m = (let p = pad m in concat (map be_bytes32 (blocks (length p div 64) H256 p)))"

text \<open>\<open>hmac.New(sha256.New, key)\<close>: a key longer than the block is hashed first, then
  padded with zeros to 64 bytes.\<close>

definition hmac_key :: "bytes \<Rightarrow> bytes" where
  "hmac_key key =
     (let k = (if length key > 64 then sha256 key else key)
      in k @ replicate (64 - length k) 0)"

definition hmac_sha256 :: "bytes \<Rightarrow> bytes \<Rightarrow> bytes" where
  "hmac_sha256 key msg =
     (let k = hmac_key key
      in sha256 (map (\<lambda>b. b XOR 0x5c) k @ sha256 (map (\<lambda>b. b XOR 0x36) k @ msg)))"

section \<open>Primitives of the logger\<close>

definition zero32 :: bytes where
  "zero32 = replicate 32 0"

text \<open>\<open>htag\<close>: H(tag), used to initialise the first aggregate.\<close>

definition htag :: "bytes \<Rightarrow> bytes" where
  "htag tag = sha256 tag"

text \<open>\<open>isZero32\<close>: OR of all bytes is zero.\<close>

definition isZero32 :: "bytes \<Rightarrow> bool" where
  "isZero32 x = (fold (\<lambda>b acc. acc OR b) x 0 = 0)"

text \<open>\<open>fwdKey\<close>: K_i = H(K_{i-1}); the model returns the new key.\<close>

definition fwdKey :: "bytes \<Rightarrow> bytes" where
  "fwdKey k = sha256 k"

definition mac :: "bytes \<Rightarrow> bytes list \<Rightarrow> bytes" where
  "mac key chunks = hmac_sha256 key (concat chunks)"

definition fold_tag :: "bytes \<Rightarrow> bytes \<Rightarrow> bytes" where
  "fold_tag prev m = sha256 (prev @ m)"

text \<open>\<open>constantTimeEqual\<close>: false on unequal lengths, otherwise the OR of the bytewise
  XORs is compared with zero.\<close>

definition constantTimeEqual :: "bytes \<Rightarrow> bytes \<Rightarrow> bool" where
  "constantTimeEqual a b =
     (if length a \<noteq> length b then False
      else fold (\<lambda>(x, y) acc. acc OR (x XOR y)) (zip a b) 0 = 0)"

text \<open>\<open>hmac.Equal\<close> of the standard library: equality of the two slices.\<close>

definition hmac_Equal :: "bytes \<Rightarrow> bytes \<Rightarrow> bool" where
  "hmac_Equal a b = (a = b)"

section \<open>Data model\<close>

record Record =
  Index :: u64
  TS :: u64
  Msg :: bytes
  TagV :: bytes
  TagT :: bytes

record TailState =
  tIndex :: u64
  tTagV :: bytes
  tTagT :: bytes

record Anchor =
  aIndex :: u64
  aKey :: bytes
  aTagV :: bytes
  aTagT :: bytes

record Entry =
  eIndex :: u64
  eTS :: u64
  eMsg :: bytes
  eTag :: bytes

section \<open>Chain verification\<close>

text \<open>Go errors. The sentinel values \<open>ErrGap\<close>, \<open>ErrTagMismatch\<close> and \<open>ErrLogNotClosed\<close> are
  compared by identity in the source; \<open>errors.New\<close> and \<open>fmt.Errorf\<close> values carry their text,
  and \<open>%w\<close> wraps another error.\<close>

datatype error =
    ErrGap
  | ErrTagMismatch
  | ErrLogNotClosed
  | ErrNonContiguous u64 u64
  | ErrNew string
  | ErrWrap string error

text \<open>The loop of \<open>VerifyChain\<close>. The state is \<open>expect\<close>, \<open>key\<close>, \<open>prev\<close> and the named
  result \<open>lastTag\<close>; the result is the pair \<open>(lastTag, err)\<close> the Go function returns.\<close>

fun VerifyChain_loop ::
  "bool \<Rightarrow> Record list \<Rightarrow> u64 \<Rightarrow> bytes \<Rightarrow> bytes \<Rightarrow> bytes \<Rightarrow> bytes \<times> error option" where
  "VerifyChain_loop useV [] expect key prev lastTag = (lastTag, None)"
| "VerifyChain_loop useV (r # rs) expect key prev lastTag =
     (let expect' = expect + 1 in
      if Index r \<noteq> expect' then (lastTag, Some ErrGap)
      else
        let key' = sha256 key;
            macVal = mac key' [be64 (Index r), be64 (TS r), Msg r];
            tag = (if isZero32 prev then htag macVal else fold_tag prev macVal);
            stored = (if useV then TagV r else TagT r)
        in if \<not> constantTimeEqual tag stored then (lastTag, Some ErrTagMismatch)
           else VerifyChain_loop useV rs expect' key' tag tag)"

definition VerifyChain ::
  "Record list \<Rightarrow> u64 \<Rightarrow> bytes \<Rightarrow> bytes \<Rightarrow> bool \<Rightarrow> bytes \<times> error option" where
  "VerifyChain records startIdx kStart tStart useVerifierChain =
     VerifyChain_loop useVerifierChain records startIdx kStart tStart zero32"

definition VerifyFrom :: "Record list \<Rightarrow> u64 \<Rightarrow> bytes \<Rightarrow> bytes \<Rightarrow> bytes \<times> error option" where
  "VerifyFrom records startIdx kStart tStart = VerifyChain records startIdx kStart tStart True"

definition VerifyFromTrusted ::
  "Record list \<Rightarrow> u64 \<Rightarrow> bytes \<Rightarrow> bytes \<Rightarrow> bytes \<times> error option" where
  "VerifyFromTrusted records startIdx kStart tStart =
     VerifyChain records startIdx kStart tStart False"

section \<open>Stores\<close>

text \<open>The observable content of a store: the record log, the anchor index and the
  single-slot tail. Both backends keep exactly these three.\<close>

record store =
  logs :: "Record list"
  anchors :: "Anchor list"
  tail :: "TailState option"

definition empty_store :: store where
  "empty_store = \<lparr>logs = [], anchors = [], tail = None\<rparr>"

subsection \<open>File-backed store\<close>

text \<open>The step of \<open>fileStore.Append\<close> at which the operating system reports an error, if any.\<close>

datatype file_fault = NoFault | FailStat | FailLock | FailWrite | FailSyncLog | FailAnchor | FailTail

text \<open>\<open>getLastIndexLocked\<close>: the index of the last record of \<open>logs.dat\<close>, 0 for an empty file.\<close>

definition getLastIndexLocked :: "store \<Rightarrow> u64" where
  "getLastIndexLocked s = (case logs s of [] \<Rightarrow> 0 | _ \<Rightarrow> Index (last (logs s)))"

text \<open>\<open>writeAnchorLocked\<close> seeks to the end of \<open>anchors.idx\<close> and writes the entry there.\<close>

definition writeAnchorLocked :: "Anchor \<Rightarrow> store \<Rightarrow> store" where
  "writeAnchorLocked a s = s\<lparr>anchors := anchors s @ [a]\<rparr>"

definition writeTailLocked :: "TailState \<Rightarrow> store \<Rightarrow> store" where
  "writeTailLocked t s = s\<lparr>tail := Some t\<rparr>"

text \<open>\<open>fileStore.Append\<close>. The checks and writes are in the order of the source; a fault after
  the record has been written leaves the record in the log.\<close>

definition fileStore_Append ::
  "file_fault \<Rightarrow> Record \<Rightarrow> TailState \<Rightarrow> Anchor option \<Rightarrow> store \<Rightarrow> error option \<times> store" where
  "fileStore_Append fault r ts anchor s =
     (if fault = FailStat then (Some (ErrWrap ''stat log file'' (ErrNew ''io'')), s)
      else if getLastIndexLocked s \<noteq> Index r - 1
        then (Some (ErrNonContiguous (getLastIndexLocked s) (Index r)), s)
      else if fault = FailLock then (Some (ErrWrap ''lock log file'' (ErrNew ''io'')), s)
      else if fault = FailWrite then (Some (ErrWrap ''write record'' (ErrNew ''io'')), s)
      else
        let s1 = s\<lparr>logs := logs s @ [r]\<rparr> in
        if fault = FailSyncLog then (Some (ErrWrap ''sync log file'' (ErrNew ''io'')), s1)
        else if anchor \<noteq> None \<and> fault = FailAnchor
          then (Some (ErrWrap ''write anchor'' (ErrNew ''io'')), s1)
        else
          let s2 = (case anchor of None \<Rightarrow> s1 | Some a \<Rightarrow> writeAnchorLocked a s1) in
          if fault = FailTail then (Some (ErrWrap ''truncate tail file'' (ErrNew ''io'')), s2)
          else (None, writeTailLocked ts s2))"

text \<open>\<open>fileStore.Iter\<close>: the records of the file, in file order, whose index is at least
  \<open>startIdx\<close>.\<close>

definition fileStore_Iter :: "u64 \<Rightarrow> store \<Rightarrow> Record list" where
  "fileStore_Iter startIdx s = filter (\<lambda>r. Index r \<ge> startIdx) (logs s)"

text \<open>\<open>fileStore.Tail\<close> and \<open>sqliteStore.Tail\<close>: the tail slot and \<open>true\<close>, or the zero value of
  \<open>TailState\<close> and \<open>false\<close> when the slot has never been written.\<close>

definition zero_TailState :: TailState where
  "zero_TailState = \<lparr>tIndex = 0, tTagV = zero32, tTagT = zero32\<rparr>"

definition Store_Tail :: "store \<Rightarrow> TailState \<times> bool" where
  "Store_Tail s = (case tail s of None \<Rightarrow> (zero_TailState, False) | Some t \<Rightarrow> (t, True))"

subsection \<open>SQLite-backed store\<close>

text \<open>The statement of the transaction of \<open>sqliteStore.Append\<close> that fails, if any. A failed
  transaction is rolled back.\<close>

datatype sql_fault = SqlOk | FailBegin | FailSelect | FailInsert | FailCommit

text \<open>\<open>SELECT COALESCE(MAX(idx),0) FROM logs\<close>: the column is a signed 64-bit integer, and the
  result is converted back with \<open>uint64(...)\<close>.\<close>

definition sqlite_maxIdx :: "store \<Rightarrow> u64" where
  "sqlite_maxIdx s =
     (case logs s of [] \<Rightarrow> 0
      | r # rs \<Rightarrow> word_of_int (fold (\<lambda>x m. max (sint (Index x)) m) rs (sint (Index r))))"

text \<open>\<open>INSERT ... ON CONFLICT(idx) DO UPDATE\<close> on the anchors table.\<close>

definition sqlite_upsert_anchor :: "Anchor \<Rightarrow> Anchor list \<Rightarrow> Anchor list" where
  "sqlite_upsert_anchor a as =
     (if \<exists>b \<in> set as. aIndex b = aIndex a
      then map (\<lambda>b. if aIndex b = aIndex a then a else b) as
      else as @ [a])"

text \<open>\<open>sqliteStore.Append\<close>. The index is bound as a \<open>uint64\<close> argument, which
  \<open>database/sql\<close> refuses when the high bit is set.\<close>

definition sqliteStore_Append ::
  "sql_fault \<Rightarrow> Record \<Rightarrow> TailState \<Rightarrow> Anchor option \<Rightarrow> store \<Rightarrow> error option \<times> store" where
  "sqliteStore_Append fault r ts anchor s =
     (if fault = FailBegin then (Some (ErrNew ''begin tx''), s)
      else if fault = FailSelect then (Some (ErrNew ''select max''), s)
      else if sqlite_maxIdx s \<noteq> Index r - 1
        then (Some (ErrNonContiguous (sqlite_maxIdx s) (Index r)), s)
      else if Index r \<ge> 2 ^ 63
        then (Some (ErrNew ''uint64 values with high bit set are not supported''), s)
      else if fault = FailInsert then (Some (ErrNew ''insert''), s)
      else if fault = FailCommit then (Some (ErrNew ''commit''), s)
      else (None, \<lparr>logs = logs s @ [r],
                   anchors = (case anchor of None \<Rightarrow> anchors s
                              | Some a \<Rightarrow> sqlite_upsert_anchor a (anchors s)),
                   tail = Some ts\<rparr>))"

subsection \<open>The \<open>Store\<close> interface\<close>

text \<open>A \<open>Store\<close> value is one of the two backends; a call goes to the backend's method, with
  the fault of that backend for this call.\<close>

datatype backend = FileBackend | SQLiteBackend

fun Store_Append ::
  "backend \<Rightarrow> file_fault \<times> sql_fault \<Rightarrow> Record \<Rightarrow> TailState \<Rightarrow> Anchor option \<Rightarrow> store \<Rightarrow>
   error option \<times> store" where
  "Store_Append FileBackend (ff, sf) = fileStore_Append ff"
| "Store_Append SQLiteBackend (ff, sf) = sqliteStore_Append sf"

text \<open>The index that \<open>Append\<close> compares with \<open>r.Index - 1\<close>.\<close>

fun store_maxIdx :: "backend \<Rightarrow> store \<Rightarrow> u64" where
  "store_maxIdx FileBackend s = getLastIndexLocked s"
| "store_maxIdx SQLiteBackend s = sqlite_maxIdx s"

text \<open>Whether the call reaches the contiguity check: no statement before it has failed.\<close>

fun reaches_check :: "backend \<Rightarrow> file_fault \<times> sql_fault \<Rightarrow> bool" where
  "reaches_check FileBackend (ff, sf) = (ff \<noteq> FailStat)"
| "reaches_check SQLiteBackend (ff, sf) = (sf \<noteq> FailBegin \<and> sf \<noteq> FailSelect)"

fun is_NonContiguous :: "error option \<Rightarrow> bool" where
  "is_NonContiguous (Some (ErrNonContiguous _ _)) = True"
| "is_NonContiguous _ = False"

section \<open>Logger\<close>

record Config =
  AnchorEvery :: u64

record Logger =
  cfg :: Config
  i :: u64
  keyV :: bytes
  keyT :: bytes
  tagV :: bytes
  tagT :: bytes

text \<open>\<open>New\<close> with the two seeds (given by the configuration or drawn at random).\<close>

definition New :: "Config \<Rightarrow> bytes \<Rightarrow> bytes \<Rightarrow> Logger" where
  "New c a0 b0 = \<lparr>cfg = c, i = 0, keyV = a0, keyT = b0, tagV = zero32, tagT = zero32\<rparr>"

text \<open>The aggregate tags computed by \<open>Append\<close> from the evolved keys.\<close>

definition next_tags :: "Logger \<Rightarrow> bytes \<Rightarrow> u64 \<Rightarrow> bytes \<times> bytes" where
  "next_tags l msg ts =
     (let i' = i l + 1;
          kV = fwdKey (keyV l);
          kT = fwdKey (keyT l);
          idx = be64 i';
          tsb = be64 ts;
          macV = mac kV [idx, tsb, msg];
          macT = mac kT [idx, tsb, msg]
      in if i' = 1 \<and> isZero32 (tagV l) \<and> isZero32 (tagT l)
         then (htag macV, htag macT)
         else (fold_tag (tagV l) macV, fold_tag (tagT l) macT))"

text \<open>\<open>Logger.Append\<close>. The store is the interface value \<open>l.store\<close>: its \<open>Append\<close> method is the
  parameter \<open>ap\<close>, its state is threaded through. \<open>ts\<close> is \<open>ts.UnixNano()\<close> as 64 bits. The
  result is the logger after the call, the store after the call, and the error or the entry.\<close>

definition Logger_Append ::
  "(Record \<Rightarrow> TailState \<Rightarrow> Anchor option \<Rightarrow> 's \<Rightarrow> error option \<times> 's) \<Rightarrow>
   Logger \<Rightarrow> 's \<Rightarrow> bytes \<Rightarrow> u64 \<Rightarrow> Logger \<times> 's \<times> (error + Entry)" where
  "Logger_Append ap l st msg ts =
     (let l1 = l\<lparr>i := i l + 1\<rparr>;
          (tV, tT) = next_tags l msg ts;
          l2 = l1\<lparr>keyV := fwdKey (keyV l), keyT := fwdKey (keyT l)\<rparr>;
          rec = \<lparr>Index = i l2, TS = ts, Msg = msg, TagV = tV, TagT = tT\<rparr>;
          anchor = (if AnchorEvery (cfg l2) \<noteq> 0 \<and> i l2 mod AnchorEvery (cfg l2) = 0
                    then Some \<lparr>aIndex = i l2, aKey = keyV l2, aTagV = tV, aTagT = tT\<rparr>
                    else None);
          tail_state = \<lparr>tIndex = i l2, tTagV = tV, tTagT = tT\<rparr>
      in case ap rec tail_state anchor st of
           (Some err, st') \<Rightarrow> (l2\<lparr>i := i l2 - 1\<rparr>, st', Inl err)
         | (None, st') \<Rightarrow>
             (l2\<lparr>tagV := tV, tagT := tT\<rparr>, st',
              Inr \<lparr>eIndex = Index rec, eTS = TS rec, eMsg = Msg rec, eTag = tV\<rparr>))"

definition LastState :: "Logger \<Rightarrow> u64 \<times> bytes \<times> bytes" where
  "LastState l = (i l, tagV l, tagT l)"


text \<open>A sequence of \<open>Append\<close> calls on one logger and one store. Each call comes with the
  environment's behaviour for that call (\<open>f\<close>, the fault of the store); the results of all calls
  are collected in order.\<close>

fun run_appends ::
  "('f \<Rightarrow> Record \<Rightarrow> TailState \<Rightarrow> Anchor option \<Rightarrow> 's \<Rightarrow> error option \<times> 's) \<Rightarrow>
   Logger \<Rightarrow> 's \<Rightarrow> ('f \<times> bytes \<times> u64) list \<Rightarrow> Logger \<times> 's \<times> (error + Entry) list" where
  "run_appends ap l st [] = (l, st, [])"
| "run_appends ap l st ((f, msg, ts) # xs) =
     (case Logger_Append (ap f) l st msg ts of
        (l', st', res) \<Rightarrow>
          (case run_appends ap l' st' xs of (l'', st'', rs) \<Rightarrow> (l'', st'', res # rs)))"

definition all_ok :: "(error + Entry) list \<Rightarrow> bool" where
  "all_ok rs = list_all (\<lambda>r. \<not> isl r) rs"

section \<open>Protocol messages and the protocol driver\<close>

record InitCommitment =
  cLogID :: string
  StartTime :: u64
  KeyA0 :: bytes
  KeyB0 :: bytes
  UpdateFreq :: u64

record OpenMessage =
  oLogID :: string
  OpenTime :: u64
  FirstIndex :: u64
  FirstTagV :: bytes
  FirstTagT :: bytes

record CloseMessage =
  xLogID :: string
  CloseTime :: u64
  FinalIndex :: u64
  FinalTagV :: bytes
  FinalTagT :: bytes

text \<open>The byte strings \<open>START\<close> and \<open>CLOSE\<close>.\<close>

definition START :: bytes where
  "START = [0x53, 0x54, 0x41, 0x52, 0x54]"

definition CLOSE :: bytes where
  "CLOSE = [0x43, 0x4c, 0x4f, 0x53, 0x45]"

definition keyUpdateFrequency :: u64 where
  "keyUpdateFrequency = 1"

text \<open>\<open>Logger.InitProtocol\<close>; \<open>now\<close> is the reading of the clock.\<close>

definition InitProtocol ::
  "(Record \<Rightarrow> TailState \<Rightarrow> Anchor option \<Rightarrow> 's \<Rightarrow> error option \<times> 's) \<Rightarrow>
   Logger \<Rightarrow> 's \<Rightarrow> string \<Rightarrow> u64 \<Rightarrow> Logger \<times> 's \<times> (error + InitCommitment \<times> OpenMessage)" where
  "InitProtocol ap l st logID now =
     (let commit = \<lparr>cLogID = logID, StartTime = now, KeyA0 = keyV l, KeyB0 = keyT l,
                     UpdateFreq = keyUpdateFrequency\<rparr>
      in case Logger_Append ap l st START now of
           (l', st', Inl err) \<Rightarrow> (l', st', Inl err)
         | (l', st', Inr entry) \<Rightarrow>
             (case LastState l' of (_, tV, tT) \<Rightarrow>
                (l', st', Inr (commit, \<lparr>oLogID = logID, OpenTime = now, FirstIndex = eIndex entry,
                                        FirstTagV = tV, FirstTagT = tT\<rparr>))))"

text \<open>\<open>Logger.CloseProtocol\<close>: appends \<open>CLOSE\<close>, reads the last state, then overwrites both keys
  with zeros.\<close>

definition CloseProtocol ::
  "(Record \<Rightarrow> TailState \<Rightarrow> Anchor option \<Rightarrow> 's \<Rightarrow> error option \<times> 's) \<Rightarrow>
   Logger \<Rightarrow> 's \<Rightarrow> string \<Rightarrow> u64 \<Rightarrow> Logger \<times> 's \<times> (error + CloseMessage)" where
  "CloseProtocol ap l st logID now =
     (case Logger_Append ap l st CLOSE now of
        (l', st', Inl err) \<Rightarrow> (l', st', Inl err)
      | (l', st', Inr entry) \<Rightarrow>
          (case LastState l' of (idx, tV, tT) \<Rightarrow>
             (l'\<lparr>keyV := replicate 32 0, keyT := replicate 32 0\<rparr>, st',
              Inr \<lparr>xLogID = logID, CloseTime = now, FinalIndex = idx,
                   FinalTagV = tV, FinalTagT = tT\<rparr>)))"

section \<open>Trusted server\<close>

record TrustedServer =
  commitments :: "string \<rightharpoonup> InitCommitment"
  opens :: "string \<rightharpoonup> OpenMessage"
  closures :: "string \<rightharpoonup> CloseMessage"

definition NewTrustedServer :: TrustedServer where
  "NewTrustedServer = \<lparr>commitments = Map.empty, opens = Map.empty, closures = Map.empty\<rparr>"

definition RegisterLog :: "InitCommitment \<Rightarrow> TrustedServer \<Rightarrow> TrustedServer" where
  "RegisterLog commit srv = srv\<lparr>commitments := (commitments srv)(cLogID commit \<mapsto> commit)\<rparr>"

definition RegisterOpen :: "OpenMessage \<Rightarrow> TrustedServer \<Rightarrow> TrustedServer" where
  "RegisterOpen opn srv = srv\<lparr>opens := (opens srv)(oLogID opn \<mapsto> opn)\<rparr>"

definition AcceptClosure :: "CloseMessage \<Rightarrow> TrustedServer \<Rightarrow> error option \<times> TrustedServer" where
  "AcceptClosure closeMsg srv =
     (case commitments srv (xLogID closeMsg) of
        None \<Rightarrow> (Some (ErrNew ''unknown log ID''), srv)
      | Some _ \<Rightarrow> (None, srv\<lparr>closures := (closures srv)(xLogID closeMsg \<mapsto> closeMsg)\<rparr>))"

definition VerifyCloseMessage :: "Record list \<Rightarrow> CloseMessage \<Rightarrow> error option" where
  "VerifyCloseMessage records closeMsg =
     (if length records = 0 then Some (ErrNew ''no records to verify'')
      else
        let lastRec = last records in
        if Index lastRec \<noteq> FinalIndex closeMsg then Some (ErrNew ''final index mismatch'')
        else if Msg lastRec \<noteq> CLOSE then Some (ErrNew ''missing proper closing message'')
        else None)"

text \<open>\<open>TrustedServer.FinalVerify\<close>, check by check in the order of the source.\<close>

definition FinalVerify :: "TrustedServer \<Rightarrow> string \<Rightarrow> Record list \<Rightarrow> error option" where
  "FinalVerify srv logID records =
     (case commitments srv logID of
        None \<Rightarrow> Some (ErrNew ''log not registered with trusted server'')
      | Some commit \<Rightarrow>
     (case opens srv logID of
        None \<Rightarrow> Some (ErrNew ''log opening not registered with trusted server'')
      | Some opn \<Rightarrow>
     (case records of
        [] \<Rightarrow> Some (ErrNew ''no records to verify'')
      | firstRec # _ \<Rightarrow>
     (if Index firstRec \<noteq> FirstIndex opn then Some (ErrNew ''opening index mismatch'')
      else if Msg firstRec \<noteq> START then Some (ErrNew ''missing opening message'')
      else
     (case VerifyFrom (take 1 records) 0 (KeyA0 commit) zero32 of
        (_, Some err) \<Rightarrow> Some (ErrWrap ''verify opening V-chain'' err)
      | (firstV, None) \<Rightarrow>
     (case VerifyFromTrusted (take 1 records) 0 (KeyB0 commit) zero32 of
        (_, Some err) \<Rightarrow> Some (ErrWrap ''verify opening T-chain'' err)
      | (firstT, None) \<Rightarrow>
     (if \<not> hmac_Equal firstV (FirstTagV opn) \<or> \<not> hmac_Equal firstT (FirstTagT opn)
      then Some (ErrNew ''opening tag mismatch'')
      else
     (case closures srv logID of
        None \<Rightarrow> Some ErrLogNotClosed
      | Some closeMsg \<Rightarrow>
     (case VerifyCloseMessage records closeMsg of
        Some err \<Rightarrow> Some err
      | None \<Rightarrow>
     (case VerifyFromTrusted records 0 (KeyB0 commit) zero32 of
        (_, Some err) \<Rightarrow> Some err
      | (finalTag, None) \<Rightarrow>
     (if \<not> hmac_Equal finalTag (FinalTagT closeMsg)
      then Some (ErrNew ''final T-chain tag mismatch'')
      else None)))))))))))"

section \<open>Verifiers over a store\<close>

text \<open>\<open>SemiTrustedVerifier.VerifyFromAnchor\<close>. The store's \<open>Iter\<close> and \<open>Tail\<close> are the two
  parameters; each may report an error of its own.\<close>

definition VerifyFromAnchor ::
  "(u64 \<Rightarrow> 's \<Rightarrow> error + Record list) \<Rightarrow> ('s \<Rightarrow> error + TailState \<times> bool) \<Rightarrow>
   's \<Rightarrow> Anchor \<Rightarrow> error option" where
  "VerifyFromAnchor iter tail_of st a =
     (case iter (aIndex a + 1) st of
        Inl err \<Rightarrow> Some err
      | Inr recs \<Rightarrow>
          (case VerifyFrom recs (aIndex a) (aKey a) (aTagV a) of
             (_, Some err) \<Rightarrow> Some err
           | (final, None) \<Rightarrow>
               (case tail_of st of
                  Inl err \<Rightarrow> Some err
                | Inr (t, ok) \<Rightarrow>
                    if \<not> ok then Some (ErrNew ''tail state unavailable'')
                    else if \<not> hmac_Equal final (tTagV t) then Some ErrTagMismatch
                    else None)))"

section \<open>Concrete inputs\<close>

text \<open>The seeds of the happy-path scenario: \<open>A_0\<close> is all zero, \<open>B_0\<close> is \<open>01 00 ... 00\<close>.\<close>

definition seedA :: bytes where
  "seedA = zero32"

definition seedB :: bytes where
  "seedB = 1 # replicate 31 0"

text \<open>A store that already holds one record with index 1, as left by an earlier logger.\<close>

definition used_store :: store where
  "used_store =
     \<lparr>logs = [\<lparr>Index = 1, TS = 0, Msg = START, TagV = replicate 32 1, TagT = replicate 32 2\<rparr>],
      anchors = [\<lparr>aIndex = 1, aKey = replicate 32 3, aTagV = replicate 32 1, aTagT = replicate 32 2\<rparr>],
      tail = Some \<lparr>tIndex = 1, tTagV = replicate 32 1, tTagT = replicate 32 2\<rparr>\<rparr>"

text \<open>Two calls without a fault: the opening and the closing record.\<close>

definition two_appends :: "((file_fault \<times> sql_fault) \<times> bytes \<times> u64) list" where
  "two_appends = [((NoFault, SqlOk), START, 7), ((NoFault, SqlOk), CLOSE, 9)]"

section \<open>Basic facts\<close>

lemma byte_xor_eq_0: "((x :: byte) XOR y = 0) = (x = y)"
proof
  assume "x XOR y = 0"
  then have "(x XOR y) XOR y = y" by simp
  then show "x = y" by (simp add: xor.assoc)
qed simp

lemma constantTimeEqual_fold_zero:
  "(fold (\<lambda>(x, y) acc. acc OR (x XOR y)) zs (acc :: byte) = 0) =
     (acc = 0 \<and> (\<forall>(x, y) \<in> set zs. x = y))"
  by (induction zs arbitrary: acc) (auto simp: or_eq_0_iff byte_xor_eq_0)

lemma constantTimeEqual_iff: "constantTimeEqual a b = (a = b)"
proof (cases "length a = length b")
  case True
  then have "(\<forall>(x, y) \<in> set (zip a b). x = y) = (a = b)"
    by (induction a b rule: list_induct2) auto
  with True show ?thesis
    by (simp add: constantTimeEqual_def constantTimeEqual_fold_zero)
next
  case False
  then show ?thesis by (auto simp: constantTimeEqual_def)
qed

section \<open>Facts about one \<open>Append\<close>\<close>


lemma Logger_Append_failed:
  assumes "Logger_Append ap l st msg ts = (l', st', Inl e)"
  shows "l' = l\<lparr>keyV := sha256 (keyV l), keyT := sha256 (keyT l)\<rparr>"
  using assms
  by (auto simp: Logger_Append_def Let_def fwdKey_def split: prod.splits option.splits)

lemma Logger_Append_succeeded:
  assumes "Logger_Append ap l st msg ts = (l', st', Inr en)"
  shows "l' = l\<lparr>i := i l + 1, keyV := sha256 (keyV l), keyT := sha256 (keyT l),
                tagV := fst (next_tags l msg ts), tagT := snd (next_tags l msg ts)\<rparr>"
    and "en = \<lparr>eIndex = i l + 1, eTS = ts, eMsg = msg, eTag = fst (next_tags l msg ts)\<rparr>"
  using assms
  by (auto simp: Logger_Append_def Let_def fwdKey_def split: prod.splits option.splits)

section \<open>Evaluating SHA-256\<close>

lemma sha256_zero32:
  "sha256 zero32 =
     [0x66, 0x68, 0x7a, 0xad, 0xf8, 0x62, 0xbd, 0x77, 0x6c, 0x8f, 0xc1, 0x8b, 0x8e, 0x9f, 0x8e, 0x20,
      0x08, 0x97, 0x14, 0x85, 0x6e, 0xe2, 0x33, 0xb3, 0x90, 0x2a, 0x59, 0x1d, 0x0d, 0x5f, 0x29, 0x25]"
  by code_simp

lemma sha256_zero32_neq: "sha256 zero32 \<noteq> zero32"
proof
  assume "sha256 zero32 = zero32"
  then have "hd (sha256 zero32) = hd zero32" by simp
  then have "(102 :: byte) = hd zero32" unfolding sha256_zero32 by simp
  then show False by (simp add: zero32_def)
qed

lemma isZero32_fold:
  "(fold (\<lambda>b acc. acc OR b) x (a :: byte) = 0) = (a = 0 \<and> (\<forall>b \<in> set x. b = 0))"
  by (induction x arbitrary: a) (auto simp: or_eq_0_iff)

lemma isZero32_iff: "isZero32 x = (\<forall>b \<in> set x. b = 0)"
  by (simp add: isZero32_def isZero32_fold)

lemma isZero32_zero32 [simp]: "isZero32 zero32"
  by (simp add: isZero32_iff zero32_def)

section \<open>The verifier on an empty sequence\<close>

text \<open>
  C8. The claim says that the chain verifier returns the running aggregate \<open>prev\<close>, so that an
  empty record sequence gives back the starting tag and \<open>VerifyFromAnchor\<close> succeeds for an
  anchor at the tail index. The source returns the named result \<open>lastTag\<close>, which is only
  assigned inside the loop: on an empty sequence the result is the zero block, whatever the
  starting tag was. For a store whose tail and anchor are both at index 1, with the non-zero
  tag \<open>01 ... 01\<close>, \<open>VerifyFromAnchor\<close> reports a tag mismatch.
\<close>

theorem C8_VerifyFromAnchor_at_tail_fails:
  "VerifyChain [] 1 (replicate 32 3) (replicate 32 1) True = (zero32, None) \<and>
   VerifyFromAnchor (\<lambda>k s. Inr (fileStore_Iter k s)) (\<lambda>s. Inr (Store_Tail s)) used_store
     \<lparr>aIndex = 1, aKey = replicate 32 3, aTagV = replicate 32 1, aTagT = replicate 32 2\<rparr>
   = Some ErrTagMismatch"
  by (simp add: VerifyFromAnchor_def fileStore_Iter_def Store_Tail_def VerifyFrom_def
      VerifyChain_def hmac_Equal_def zero32_def word_le_nat_alt used_store_def)

section \<open>A failed append\<close>

text \<open>
  C3. The claim says that a failed \<open>store.Append\<close> leaves the logger exactly as it was before
  the call. The source undoes the increment of \<open>i\<close> and has not yet assigned the tags, but the
  two keys were evolved in place before the store was called and are not restored. A fresh
  logger with the seeds \<open>seedA\<close>, \<open>seedB\<close> on a store that already holds record 1 is refused
  as non-contiguous; afterwards its auditor key is \<open>SHA-256(seedA)\<close>, not \<open>seedA\<close>.
\<close>

theorem C3_failed_Append_keeps_evolved_keys:
  "(case Logger_Append (fileStore_Append NoFault) (New \<lparr>AnchorEvery = 0\<rparr> seedA seedB)
           used_store [0x61] 5 of
      (l', st', res) \<Rightarrow>
        res = Inl (ErrNonContiguous 1 1) \<and> i l' = 0 \<and> tagV l' = zero32 \<and> tagT l' = zero32 \<and>
        keyV l' = sha256 seedA \<and> keyV l' \<noteq> seedA)"
  by (simp add: Logger_Append_def fileStore_Append_def getLastIndexLocked_def New_def Let_def
      fwdKey_def seedA_def sha256_zero32_neq used_store_def split: prod.splits)

section \<open>Appending after the closure\<close>

text \<open>
  C4. The claim says that after \<open>CloseProtocol\<close> both keys are zero and every later \<open>Append\<close>
  is rejected with a state error. The keys are zeroed, but \<open>Logger.Append\<close> has no closed
  state to consult: on a fresh logger and an empty file store, \<open>CloseProtocol\<close> succeeds and the
  next \<open>Append\<close> succeeds too, writing record 2 after the \<open>CLOSE\<close> record.
\<close>

theorem C4_Append_after_CloseProtocol_succeeds:
  "(case CloseProtocol (fileStore_Append NoFault) (New \<lparr>AnchorEvery = 0\<rparr> seedA seedB)
           empty_store ''log'' 7 of
      (l1, s1, r1) \<Rightarrow>
        \<not> isl r1 \<and> keyV l1 = replicate 32 0 \<and> keyT l1 = replicate 32 0 \<and>
        (case Logger_Append (fileStore_Append NoFault) l1 s1 [0x61] 8 of
           (l2, s2, r2) \<Rightarrow> \<not> isl r2 \<and> i l2 = 2 \<and> length (logs s2) = 2))"
  by (simp add: CloseProtocol_def Logger_Append_def fileStore_Append_def getLastIndexLocked_def
      New_def Let_def empty_store_def LastState_def writeTailLocked_def split: prod.splits)

section \<open>Facts about runs of appends\<close>


lemma run_appends_length:
  "run_appends ap l st xs = (l', st', rs) \<Longrightarrow> length rs = length xs"
  by (induction xs arbitrary: l st l' st' rs) (auto split: prod.splits)

section \<open>Facts about the stores\<close>

lemma fold_max_Max:
  "fold (\<lambda>x m. max (g x) m) rs (m0 :: int) = Max (set (m0 # map g rs))"
proof -
  have "fold (\<lambda>x m. max (g x) m) rs m0 = fold max (map g rs) m0"
    by (simp add: fold_map comp_def)
  then show ?thesis by (simp only: Max.set_eq_fold)
qed

lemma sint_small:
  assumes "(w :: u64) < 2 ^ 63"
  shows "sint w = int (unat w)"
proof -
  have "uint w < uint (2 ^ 63 :: u64)" using assms by (simp only: word_less_def)
  then have "uint w < 2 ^ 63" by simp
  then have "signed_take_bit 63 (uint w) = uint w"
    by (intro signed_take_bit_int_eq_self) (simp_all add: order_trans [of _ 0])
  then show ?thesis by (simp add: sint_uint)
qed

lemma store_maxIdx_of_run:
  assumes idx: "map (\<lambda>r. unat (Index r)) (logs s) = [1..<Suc k]" and k: "k < 2 ^ 63"
  shows "unat (store_maxIdx b s) = k"
proof (cases "k = 0")
  case True
  then have "logs s = []" using idx by simp
  then show ?thesis using True
    by (cases b) (simp_all add: getLastIndexLocked_def sqlite_maxIdx_def)
next
  case False
  then have ne: "logs s \<noteq> []" using idx by auto
  have lastk: "unat (Index (last (logs s))) = k"
  proof -
    have "last (map (\<lambda>r. unat (Index r)) (logs s)) = last [1..<Suc k]" using idx by simp
    then show ?thesis using ne False by (simp add: last_map)
  qed
  show ?thesis
  proof (cases b)
    case FileBackend
    then show ?thesis using ne lastk by (cases "logs s") (simp_all add: getLastIndexLocked_def)
  next
    case SQLiteBackend
    obtain r rs where rs: "logs s = r # rs" using ne by (cases "logs s") auto
    have mem: "\<And>x. x \<in> set (logs s) \<Longrightarrow> 1 \<le> unat (Index x) \<and> unat (Index x) \<le> k"
    proof -
      fix x assume "x \<in> set (logs s)"
      then have "unat (Index x) \<in> set (map (\<lambda>r. unat (Index r)) (logs s))" by force
      then show "1 \<le> unat (Index x) \<and> unat (Index x) \<le> k" unfolding idx by auto
    qed
    have small: "\<And>x. x \<in> set (logs s) \<Longrightarrow> sint (Index x) = int (unat (Index x))"
    proof -
      fix x assume x: "x \<in> set (logs s)"
      have "unat (Index x) < 2 ^ 63" using mem [OF x] k by simp
      then have "Index x < 2 ^ 63" by (simp add: word_less_nat_alt)
      then show "sint (Index x) = int (unat (Index x))" by (rule sint_small)
    qed
    have "Max (set (sint (Index r) # map (\<lambda>x. sint (Index x)) rs)) = int k"
    proof (rule Max_eqI)
      show "finite (set (sint (Index r) # map (\<lambda>x. sint (Index x)) rs))" by simp
    next
      fix y assume "y \<in> set (sint (Index r) # map (\<lambda>x. sint (Index x)) rs)"
      then obtain x where x: "x \<in> set (logs s)" and y: "y = sint (Index x)" using rs by auto
      have "unat (Index x) \<le> k" using mem [OF x] by (rule conjunct2)
      then have "int (unat (Index x)) \<le> int k" by (rule of_nat_mono)
      then show "y \<le> int k" unfolding y small [OF x] .
    next
      have l: "last (logs s) \<in> set (logs s)" using ne by (rule last_in_set)
      have "sint (Index (last (logs s))) = int k"
        unfolding small [OF l] lastk ..
      then have "int k \<in> (\<lambda>x. sint (Index x)) ` set (logs s)" using l by (rule image_eqI [OF sym])
      then show "int k \<in> set (sint (Index r) # map (\<lambda>x. sint (Index x)) rs)"
        unfolding rs by (simp only: list.set_map list.simps(9) [symmetric] set_simps image_insert)
    qed
    then have "sqlite_maxIdx s = word_of_int (int k)"
      using rs by (simp add: sqlite_maxIdx_def fold_max_Max)
    then have "unat (sqlite_maxIdx s) = k mod 2 ^ 64"
      by (simp add: unat_of_nat)
    then show ?thesis using SQLiteBackend k by simp
  qed
qed

lemma Store_Append_ok:
  assumes "Store_Append b f r t a s = (None, s')"
  shows "logs s' = logs s @ [r]" and "tail s' = Some t" and "store_maxIdx b s = Index r - 1"
  using assms
  by (cases b; cases f;
      auto simp: fileStore_Append_def sqliteStore_Append_def Let_def writeTailLocked_def
        writeAnchorLocked_def split: if_splits option.splits)+

lemma Logger_Append_Store_ok:
  assumes "Logger_Append (Store_Append b f) l st msg ts = (l', st', Inr en)"
  shows "logs st' = logs st @ [\<lparr>Index = i l + 1, TS = ts, Msg = msg,
            TagV = fst (next_tags l msg ts), TagT = snd (next_tags l msg ts)\<rparr>]"
    and "tail st' = Some \<lparr>tIndex = i l + 1, tTagV = fst (next_tags l msg ts),
            tTagT = snd (next_tags l msg ts)\<rparr>"
  using assms
  by (auto simp: Logger_Append_def Let_def split: prod.splits option.splits
      dest: Store_Append_ok)

lemma run_appends_Cons_ok:
  assumes "run_appends ap l st ((f, msg, ts) # xs) = (l'', st'', rs)" and "all_ok rs"
  obtains l' st' en rs' where "Logger_Append (ap f) l st msg ts = (l', st', Inr en)"
    and "run_appends ap l' st' xs = (l'', st'', rs')" and "all_ok rs'" and "rs = Inr en # rs'"
proof -
  obtain l' st' res where a: "Logger_Append (ap f) l st msg ts = (l', st', res)"
    by (cases "Logger_Append (ap f) l st msg ts")
  obtain rs' where r: "run_appends ap l' st' xs = (l'', st'', rs')" and rs: "rs = res # rs'"
    using assms(1) a by (auto split: prod.splits)
  from assms(2) rs obtain en where "res = Inr en" and "all_ok rs'"
    by (cases res) (auto simp: all_ok_def)
  with a r rs that show ?thesis by blast
qed

lemma run_invariant:
  assumes "run_appends (Store_Append b) l st xs = (l', st', rs)" and "all_ok rs"
    and "i l = of_nat k"
    and "map (\<lambda>r. unat (Index r)) (logs st) = [1..<Suc k]"
    and "k + length xs < 2 ^ 64"
    and "Store_Tail st = (\<lparr>tIndex = of_nat k, tTagV = tagV l, tTagT = tagT l\<rparr>, k \<noteq> 0)"
  shows "i l' = of_nat (k + length xs) \<and>
         map (\<lambda>r. unat (Index r)) (logs st') = [1..<Suc (k + length xs)] \<and>
         Store_Tail st' = (\<lparr>tIndex = of_nat (k + length xs), tTagV = tagV l', tTagT = tagT l'\<rparr>,
                           k + length xs \<noteq> 0)"
  using assms
proof (induction xs arbitrary: l st k rs)
  case Nil
  then show ?case by simp
next
  case (Cons x xs)
  obtain f msg ts where x: "x = (f, msg, ts)" by (cases x)
  from Cons.prems(1,2) obtain l1 st1 en rs' where
    a: "Logger_Append (Store_Append b f) l st msg ts = (l1, st1, Inr en)" and
    r: "run_appends (Store_Append b) l1 st1 xs = (l', st', rs')" and ok: "all_ok rs'"
    unfolding x by (rule run_appends_Cons_ok)
  note l1 = Logger_Append_succeeded(1) [OF a]
  note st1 = Logger_Append_Store_ok [OF a]
  have k: "Suc k < 2 ^ 64" using Cons.prems(5) by simp
  have i1: "i l1 = of_nat (Suc k)" using l1 Cons.prems(3) by simp
  have "unat (of_nat (Suc k) :: u64) = Suc k mod 2 ^ 64"
    by (simp add: unat_of_nat del: of_nat_Suc)
  then have u: "unat (of_nat k + 1 :: u64) = Suc k"
    using k by (simp add: add.commute)
  have logs1: "map (\<lambda>r. unat (Index r)) (logs st1) = [1..<Suc (Suc k)]"
    using st1(1) Cons.prems(3,4) u by simp
  have tail1: "Store_Tail st1 = (\<lparr>tIndex = of_nat (Suc k), tTagV = tagV l1, tTagT = tagT l1\<rparr>, Suc k \<noteq> 0)"
    using st1(2) l1 Cons.prems(3) by (simp add: Store_Tail_def)
  have "Suc k + length xs < 2 ^ 64" using Cons.prems(5) by simp
  from Cons.IH [OF r ok i1 logs1 this tail1] show ?case by simp
qed

section \<open>The accessor for the initial keys\<close>



section \<open>The contiguity check of the stores\<close>

text \<open>
  C7. In both backends, \<open>Append\<close> fails with the non-contiguous error exactly when the call
  reaches the check and the index the store computes as its current maximum is not
  \<open>r.Index - 1\<close>; that index is 0 for an empty store, and for a store holding the records
  \<open>1, ..., k\<close> it is \<open>k\<close>, the largest stored index.
\<close>

theorem C7_noncontiguous_exactly_when_not_predecessor:
  "is_NonContiguous (fst (Store_Append b f r t a s)) =
     (reaches_check b f \<and> store_maxIdx b s \<noteq> Index r - 1) \<and>
   store_maxIdx b empty_store = 0 \<and>
   (map (\<lambda>r. unat (Index r)) (logs s) = [1..<Suc k] \<and> k < 2 ^ 63 \<longrightarrow>
      unat (store_maxIdx b s) = k)"
proof (intro conjI impI)
  show "is_NonContiguous (fst (Store_Append b f r t a s)) =
     (reaches_check b f \<and> store_maxIdx b s \<noteq> Index r - 1)"
    by (cases b; cases f)
       (auto simp: fileStore_Append_def sqliteStore_Append_def Let_def split: if_splits)
  show "store_maxIdx b empty_store = 0"
    by (cases b) (simp_all add: getLastIndexLocked_def sqlite_maxIdx_def empty_store_def)
  show "unat (store_maxIdx b s) = k"
    if "map (\<lambda>r. unat (Index r)) (logs s) = [1..<Suc k] \<and> k < 2 ^ 63"
    using that store_maxIdx_of_run by blast
qed

theorem C7_noncontiguous_witness:
  "is_NonContiguous (fst (Store_Append SQLiteBackend (NoFault, SqlOk)
      \<lparr>Index = 3, TS = 0, Msg = CLOSE, TagV = zero32, TagT = zero32\<rparr>
      zero_TailState None used_store)) \<and>
   \<not> is_NonContiguous (fst (Store_Append SQLiteBackend (NoFault, SqlOk)
      \<lparr>Index = 2, TS = 0, Msg = CLOSE, TagV = zero32, TagT = zero32\<rparr>
      zero_TailState None used_store)) \<and>
   map (\<lambda>r. unat (Index r)) (logs used_store) = [1..<Suc 1] \<and> (1 :: nat) < 2 ^ 63 \<and>
   unat (store_maxIdx SQLiteBackend used_store) = 1"
proof -
  have m: "map (\<lambda>r. unat (Index r)) (logs used_store) = [1..<Suc 1] \<and> (1 :: nat) < 2 ^ 63"
    by (simp add: used_store_def)
  have u: "unat (store_maxIdx SQLiteBackend used_store) = 1"
    using C7_noncontiguous_exactly_when_not_predecessor [of SQLiteBackend _ _ _ _ used_store 1] m
    by blast
  then have v: "store_maxIdx SQLiteBackend used_store = 1"
    by (metis unat_1 word_unat_eq_iff)
  show ?thesis
    using C7_noncontiguous_exactly_when_not_predecessor [of SQLiteBackend "(NoFault, SqlOk)"
        "\<lparr>Index = 3, TS = 0, Msg = CLOSE, TagV = zero32, TagT = zero32\<rparr>" zero_TailState None used_store 1]
      C7_noncontiguous_exactly_when_not_predecessor [of SQLiteBackend "(NoFault, SqlOk)"
        "\<lparr>Index = 2, TS = 0, Msg = CLOSE, TagV = zero32, TagT = zero32\<rparr>" zero_TailState None used_store 1]
      m u v
    by simp
qed

lemma two_appends_ok:
  "all_ok (snd (snd (run_appends (Store_Append b) (New \<lparr>AnchorEvery = 0\<rparr> seedA seedB)
      empty_store two_appends)))"
  by (cases b)
     (simp_all add: two_appends_def all_ok_def Logger_Append_def fileStore_Append_def
        sqliteStore_Append_def sqlite_maxIdx_def getLastIndexLocked_def New_def Let_def
        empty_store_def writeTailLocked_def word_le_nat_alt split: prod.splits)

section \<open>The tail slot after a run\<close>

text \<open>
  C5. After a run of \<open>n\<close> appends that all succeeded, on a logger made by \<open>New\<close> and an empty
  store of either backend, the tail read back from the store carries the index and the two
  tags that \<open>LastState\<close> reports, the index is \<open>n\<close>, and the stored records have the indices
  \<open>1, ..., n\<close>, so that \<open>n\<close> is the largest of them. (For \<open>n = 0\<close> the store reports the zero
  tail with \<open>present = false\<close>.)
\<close>

theorem C5_tail_matches_LastState:
  assumes "all_ok (snd (snd (run_appends (Store_Append b) (New c a0 b0) empty_store xs)))"
    and "length xs < 2 ^ 64"
  shows "(case run_appends (Store_Append b) (New c a0 b0) empty_store xs of
            (l, st, rs) \<Rightarrow>
              (case LastState l of
                 (idx, tV, tT) \<Rightarrow>
                   Store_Tail st = (\<lparr>tIndex = idx, tTagV = tV, tTagT = tT\<rparr>, xs \<noteq> []) \<and>
                   unat idx = length xs \<and>
                   map (\<lambda>r. unat (Index r)) (logs st) = [1..<Suc (length xs)]))"
proof -
  obtain l st rs where r: "run_appends (Store_Append b) (New c a0 b0) empty_store xs = (l, st, rs)"
    by (cases "run_appends (Store_Append b) (New c a0 b0) empty_store xs")
  have ok: "all_ok rs" using assms(1) r by simp
  have "i l = of_nat (0 + length xs) \<and>
        map (\<lambda>r. unat (Index r)) (logs st) = [1..<Suc (0 + length xs)] \<and>
        Store_Tail st = (\<lparr>tIndex = of_nat (0 + length xs), tTagV = tagV l, tTagT = tagT l\<rparr>,
                         0 + length xs \<noteq> 0)"
    using assms(2)
    by (intro run_invariant [OF r ok])
       (simp_all add: New_def empty_store_def Store_Tail_def zero_TailState_def)
  moreover have "unat (of_nat (length xs) :: u64) = length xs"
    using assms(2) by (simp add: unat_of_nat)
  ultimately show ?thesis using r by (simp add: LastState_def)
qed

theorem C5_tail_matches_LastState_witness:
  "all_ok (snd (snd (run_appends (Store_Append SQLiteBackend) (New \<lparr>AnchorEvery = 0\<rparr> seedA seedB)
      empty_store two_appends))) \<and>
   length two_appends < 2 ^ 64 \<and>
   (case run_appends (Store_Append SQLiteBackend) (New \<lparr>AnchorEvery = 0\<rparr> seedA seedB)
           empty_store two_appends of
      (l, st, rs) \<Rightarrow>
        (case LastState l of
           (idx, tV, tT) \<Rightarrow>
             Store_Tail st = (\<lparr>tIndex = idx, tTagV = tV, tTagT = tT\<rparr>, True) \<and>
             unat idx = 2 \<and> map (\<lambda>r. unat (Index r)) (logs st) = [1..<3]))"
proof -
  have n: "length two_appends < 2 ^ 64" by (simp add: two_appends_def)
  have e: "[1..<Suc (length two_appends)] = [1, 2]" "two_appends \<noteq> []" "length two_appends = 2"
    by (simp_all add: two_appends_def upt_rec)
  show ?thesis
    using C5_tail_matches_LastState [OF two_appends_ok n, of SQLiteBackend] two_appends_ok n
    by (simp add: e(2,3))
qed

end
